theory Spec2Isabelle
  imports Main "HOL-Library.AList"
begin

section \<open>The publish/subscribe layer: \<^verbatim>\<open>lib/Protocol/Publish.py\<close>\<close>

text \<open>
  Conventions of the embedding.
  \<^item> A Python \<^verbatim>\<open>bytes\<close> value is a \<^typ>\<open>string\<close> (a list of 8-bit characters). A Python
    \<^verbatim>\<open>str\<close> is represented by its UTF-8 encoding, so \<^verbatim>\<open>.encode()\<close> is the identity and
    \<^verbatim>\<open>+\<close> is \<open>@\<close>; \<^verbatim>\<open>bytes.decode()\<close> succeeds exactly on the byte strings a parameter
    (\<open>decodable\<close>) accepts.
  \<^item> A \<^verbatim>\<open>dict\<close> is an association list in insertion order: \<^const>\<open>map_of\<close> reads a key,
    \<^const>\<open>AList.update\<close> assigns (in place for a present key, at the end for a new one),
    \<^const>\<open>AList.delete\<close> is \<^verbatim>\<open>del\<close>.
  \<^item> Every \<^verbatim>\<open>raise\<close> is a value \<open>Inl e\<close>; a method that mutates its object returns the
    object next to its result, also when it raises.
  \<^item> The ZeroMQ socket is what the code writes to it: the frames sent (\<open>outbox\<close>), the
    subscriptions requested (\<open>subscriptions\<close>). The receive loop reads the outcomes of its
    polls from a list. The sequencer's lock is not modelled: every call runs alone.
\<close>

subsection \<open>Values\<close>

datatype error = KeyError | TypeError | ValueError | UnicodeDecodeError | JSONDecodeError

text \<open>The values an event carries and the structured-data parser returns (floats left out).\<close>

datatype json =
    JNull
  | JBool bool
  | JInt int
  | JStr string
  | JList "json list"
  | JDict "(string \<times> json) list"

type_synonym event = "(string \<times> json) list"

text \<open>
  The module \<^verbatim>\<open>Json\<close> (\<^verbatim>\<open>from . import Json\<close>) is not part of the sources at hand; its two
  functions are parameters, with the interface the specification gives them:
  \<^verbatim>\<open>serialize(mapping) -> string\<close> and \<^verbatim>\<open>parse(string) -> mapping\<close>, the latter failing on
  malformed input.
\<close>

record codec =
  dumps :: "event \<Rightarrow> string"
  loads :: "string \<Rightarrow> error + json"
  decodable :: "string \<Rightarrow> bool"

text \<open>What a callback receives: the parsed structure, or the raw bytes of a bulk frame.\<close>

datatype payload = Parsed json | Raw string

subsection \<open>Decimal rendering: \<^verbatim>\<open>str(n)\<close> of an integer\<close>

fun digits :: "nat \<Rightarrow> string" where
  "digits n =
     (if n < 10 then [''0123456789'' ! n]
      else digits (n div 10) @ [''0123456789'' ! (n mod 10)])"

definition str_int :: "int \<Rightarrow> string" where
  "str_int i = (if i < 0 then CHR ''-'' # digits (nat (- i)) else digits (nat i))"

subsection \<open>Callbacks and weak references\<close>

datatype outcome = Returns | Raises

text \<open>
  An object a caller hands to \<^verbatim>\<open>register\<close>: a callable, which returns or raises on each
  payload, or an object that is not callable.
\<close>

datatype pyobj = Function "payload \<Rightarrow> outcome" | Plain

text \<open>
  Modelled from the spec: the module \<^verbatim>\<open>WeakRef\<close> (\<^verbatim>\<open>from .. import WeakRef\<close>) is missing from the
  sources. A registration is a weak, non-owning reference, "an identifier plus a liveness
  query": the reference is the identity of its referent, and the store answers the query,
  \<open>None\<close> once the referent is gone. \<^verbatim>\<open>WeakRef.ref(callback)\<close> is the identity of \<open>callback\<close>,
  and \<^verbatim>\<open>reference()\<close> is \<open>st reference\<close>.
\<close>

type_synonym ref = nat

type_synonym store = "ref \<Rightarrow> pyobj option"

text \<open>What a dispatch does to the outside: calls of live callbacks, and tracebacks printed.\<close>

datatype action = Invoked ref payload | Traceback ref

subsection \<open>Client\<close>

definition default_port :: int where
  "default_port = 10133"

text \<open>
  The fields of a \<^verbatim>\<open>Client\<close>. Of its socket the model keeps the endpoint connected to and the
  topics passed to \<^verbatim>\<open>setsockopt(zmq.SUBSCRIBE, ...)\<close>, in order.
\<close>

record client =
  server :: string
  subscriptions :: "string list"
  callback_all :: "ref list"
  callback_specific :: "(string \<times> ref list) list"
  shutdown :: bool

text \<open>\<^verbatim>\<open>Client.__init__\<close> (lines 26-46); the thread it starts executes \<open>run\<close> below.\<close>

definition Client_init :: "string option \<Rightarrow> int option \<Rightarrow> client" where
  "Client_init address port =
     (let address = (case address of None \<Rightarrow> ''localhost'' | Some a \<Rightarrow> a);
          port = (case port of None \<Rightarrow> default_port | Some p \<Rightarrow> p);
          port = str_int port
      in \<lparr> server = ''tcp://'' @ address @ '':'' @ port,
           subscriptions = [],
           callback_all = [],
           callback_specific = [],
           shutdown = False \<rparr>)"

text \<open>
  \<^verbatim>\<open>bytes.split(maxsplit=1)\<close> and the whitespace it splits at (\<^verbatim>\<open>b' \t\n\r\x0b\f'\<close>): leading
  whitespace is skipped, the first token ends at the next whitespace, and the rest, from its
  first byte that is not whitespace to the end, is the second element when it is not empty.
\<close>

definition isspace :: "char \<Rightarrow> bool" where
  "isspace c =
     (c = CHR 0x20 \<or> c = CHR 0x09 \<or> c = CHR 0x0A \<or> c = CHR 0x0D \<or> c = CHR 0x0B \<or> c = CHR 0x0C)"

definition split1 :: "string \<Rightarrow> string list" where
  "split1 s =
     (let s = dropWhile isspace s
      in if s = [] then []
         else
           (let rest = dropWhile isspace (dropWhile (\<lambda>c. \<not> isspace c) s)
            in if rest = [] then [takeWhile (\<lambda>c. \<not> isspace c) s]
               else [takeWhile (\<lambda>c. \<not> isspace c) s, rest]))"

text \<open>\<^verbatim>\<open>topic[-4:] == b'bulk'\<close>: the last four bytes, or all of a shorter topic.\<close>

definition ends_bulk :: "string \<Rightarrow> bool" where
  "ends_bulk topic = (drop (length topic - 4) topic = ''bulk'')"

text \<open>
  \<^verbatim>\<open>Client.propagate\<close>, lines 65-71: the frame is split into topic and body, and the body of a
  frame that is not a bulk frame is decoded and parsed. The unpacking of anything but two
  parts raises \<^verbatim>\<open>ValueError\<close>.
\<close>

definition propagate_decode :: "codec \<Rightarrow> string \<Rightarrow> error + (string \<times> payload)" where
  "propagate_decode cd message =
     (case split1 message of
        [topic, message] \<Rightarrow>
          if ends_bulk topic then Inr (topic, Raw message)
          else if \<not> decodable cd message then Inl UnicodeDecodeError
          else (case loads cd message of
                  Inl e \<Rightarrow> Inl e
                | Inr parsed \<Rightarrow> Inr (topic, Parsed parsed))
      | _ \<Rightarrow> Inl ValueError)"

text \<open>
  Lines 84-88 and 116-120: \<^verbatim>\<open>try: callback(message)\<close> under a bare \<^verbatim>\<open>except\<close> that prints the
  traceback. Calling \<^verbatim>\<open>None\<close> (a dead reference) or an object that is not callable raises
  \<^verbatim>\<open>TypeError\<close> inside the \<^verbatim>\<open>try\<close>, so it ends in the \<^verbatim>\<open>except\<close> branch as well.
\<close>

definition invoke :: "store \<Rightarrow> ref \<Rightarrow> payload \<Rightarrow> action list" where
  "invoke st reference message =
     (case st reference of
        None \<Rightarrow> [Traceback reference]
      | Some Plain \<Rightarrow> [Traceback reference]
      | Some (Function f) \<Rightarrow>
          (case f message of
             Returns \<Rightarrow> [Invoked reference message]
           | Raises \<Rightarrow> [Invoked reference message, Traceback reference]))"

text \<open>
  Lines 78-88 and 110-120: the walk over a list of references, collecting the dead ones in
  \<open>invalid\<close> and calling each.
\<close>

fun propagate_walk ::
  "store \<Rightarrow> payload \<Rightarrow> ref list \<Rightarrow> ref list \<Rightarrow> action list \<Rightarrow> ref list \<times> action list" where
  "propagate_walk st message [] invalid out = (invalid, out)"
| "propagate_walk st message (reference # references) invalid out =
     propagate_walk st message references
       (if st reference = None then invalid @ [reference] else invalid)
       (out @ invoke st reference message)"

text \<open>
  Lines 90-91 and 122-123: \<^verbatim>\<open>references.remove(reference)\<close> for each collected reference;
  \<^verbatim>\<open>list.remove\<close> deletes the first equal element and raises \<^verbatim>\<open>ValueError\<close> when there is none.
\<close>

fun propagate_remove :: "ref list \<Rightarrow> ref list \<Rightarrow> (error + unit) \<times> ref list" where
  "propagate_remove [] references = (Inr (), references)"
| "propagate_remove (reference # invalid) references =
     (if reference \<in> set references
      then propagate_remove invalid (remove1 reference references)
      else (Inl ValueError, references))"

text \<open>
  Lines 75-126: the two walks. The lists are mutated in place, so an entry of
  \<open>callback_specific\<close> holds the pruned list, until \<^verbatim>\<open>del\<close> removes the entry of an empty one.
\<close>

definition propagate_dispatch ::
  "store \<Rightarrow> string \<Rightarrow> payload \<Rightarrow> client \<Rightarrow> (error + unit) \<times> client \<times> action list" where
  "propagate_dispatch st topic message c =
     (case propagate_walk st message (callback_all c) [] [] of
        (invalid, out) \<Rightarrow>
          (case propagate_remove invalid (callback_all c) of
             (Inl e, references) \<Rightarrow> (Inl e, c\<lparr>callback_all := references\<rparr>, out)
           | (Inr _, references) \<Rightarrow>
               (let c = c\<lparr>callback_all := references\<rparr>
                in if callback_specific c = [] then (Inr (), c, out)
                   else
                     (case map_of (callback_specific c) topic of
                        None \<Rightarrow> (Inr (), c, out)
                      | Some references \<Rightarrow>
                          (case propagate_walk st message references [] out of
                             (invalid, out) \<Rightarrow>
                               (case propagate_remove invalid references of
                                  (Inl e, references) \<Rightarrow>
                                    (Inl e,
                                     c\<lparr>callback_specific :=
                                         AList.update topic references (callback_specific c)\<rparr>,
                                     out)
                                | (Inr _, references) \<Rightarrow>
                                    if length references = 0
                                    then (Inr (),
                                          c\<lparr>callback_specific :=
                                              AList.delete topic (callback_specific c)\<rparr>,
                                          out)
                                    else (Inr (),
                                          c\<lparr>callback_specific :=
                                              AList.update topic references (callback_specific c)\<rparr>,
                                          out)))))))"

text \<open>\<^verbatim>\<open>Client.propagate\<close> (lines 49-126).\<close>

definition propagate ::
  "codec \<Rightarrow> store \<Rightarrow> string \<Rightarrow> client \<Rightarrow> (error + unit) \<times> client \<times> action list" where
  "propagate cd st message c =
     (if callback_all c = [] \<and> callback_specific c = [] then (Inr (), c, [])
      else
        (case propagate_decode cd message of
           Inl e \<Rightarrow> (Inl e, c, [])
         | Inr (topic, message) \<Rightarrow> propagate_dispatch st topic message c))"

text \<open>
  \<^verbatim>\<open>Client.subscribe\<close> (lines 180-193): a topic that has no \<^verbatim>\<open>decode\<close> attribute (a \<^verbatim>\<open>str\<close>) is
  encoded, a \<^verbatim>\<open>bytes\<close> topic is used as it is.
\<close>

datatype pytext = Str string | Bytes string

definition subscribe :: "pytext \<Rightarrow> client \<Rightarrow> client" where
  "subscribe topic c =
     (let topic = (case topic of Bytes b \<Rightarrow> b | Str s \<Rightarrow> s)
      in c\<lparr>subscriptions := subscriptions c @ [topic]\<rparr>)"

text \<open>
  \<^verbatim>\<open>str.strip()\<close> on ASCII text: besides the whitespace of \<^verbatim>\<open>bytes\<close>, the separators
  \<^verbatim>\<open>\x1c\<close> to \<^verbatim>\<open>\x1f\<close> are whitespace of \<^verbatim>\<open>str\<close>.
\<close>

definition str_isspace :: "char \<Rightarrow> bool" where
  "str_isspace c =
     (isspace c \<or> c = CHR 0x1C \<or> c = CHR 0x1D \<or> c = CHR 0x1E \<or> c = CHR 0x1F)"

definition strip :: "string \<Rightarrow> string" where
  "strip s = rev (dropWhile str_isspace (rev (dropWhile str_isspace s)))"

text \<open>
  \<^verbatim>\<open>Client.register\<close> (lines 129-161), for a topic that is \<^verbatim>\<open>None\<close> or a \<^verbatim>\<open>str\<close>. The bare
  \<^verbatim>\<open>except\<close> around the lookup creates the list of a topic that has none.
\<close>

definition register :: "store \<Rightarrow> ref \<Rightarrow> string option \<Rightarrow> client \<Rightarrow> error + client" where
  "register st callback topic c =
     (case st callback of
        Some (Function f) \<Rightarrow>
          (let reference = callback
           in case topic of
                None \<Rightarrow>
                  Inr (subscribe (Str []) (c\<lparr>callback_all := callback_all c @ [reference]\<rparr>))
              | Some topic \<Rightarrow>
                  (let topic = strip topic;
                       callbacks = (case map_of (callback_specific c) topic of
                                      Some callbacks \<Rightarrow> callbacks
                                    | None \<Rightarrow> [])
                   in Inr (subscribe (Bytes topic)
                        (c\<lparr>callback_specific :=
                            AList.update topic (callbacks @ [reference]) (callback_specific c)\<rparr>))))
      | _ \<Rightarrow> Inl TypeError)"

text \<open>
  \<^verbatim>\<open>Client.run\<close> (lines 164-177). Each element of \<open>polls\<close> is the outcome of one
  \<^verbatim>\<open>poller.poll(1000)\<close>: \<open>None\<close> when the poll timed out, \<open>Some message\<close> when the socket had
  a frame, which \<^verbatim>\<open>recv\<close> returns. The loop has three ways to end: the flag is set
  (\<open>Stopped\<close>); an exception leaves \<^verbatim>\<open>propagate\<close> and, nothing catching it, the loop and its
  thread (\<open>Crashed\<close>); or the polls given are used up with the loop still running
  (\<open>Polling\<close>).
\<close>

datatype run_end = Stopped | Crashed error | Polling

fun run ::
  "codec \<Rightarrow> store \<Rightarrow> string option list \<Rightarrow> client \<Rightarrow> run_end \<times> client \<times> action list" where
  "run cd st [] c = (if shutdown c = False then (Polling, c, []) else (Stopped, c, []))"
| "run cd st (poll # polls) c =
     (if shutdown c = False
      then
        (case poll of
           None \<Rightarrow> run cd st polls c
         | Some message \<Rightarrow>
             (case propagate cd st message c of
                (Inl e, c, out) \<Rightarrow> (Crashed e, c, out)
              | (Inr _, c, out) \<Rightarrow>
                  (case run cd st polls c of
                     (r, c, out') \<Rightarrow> (r, c, out @ out'))))
      else (Stopped, c, []))"

subsection \<open>Server\<close>

definition pub_id_min :: int where
  "pub_id_min = 0"

definition pub_id_max :: int where
  "pub_id_max = 0xFFFFFFFF"

text \<open>
  The fields of a \<^verbatim>\<open>Server\<close>: the endpoint bound, the frames passed to \<^verbatim>\<open>socket.send\<close> in
  order, and the value the iterator \<^verbatim>\<open>itertools.count\<close> yields next.
\<close>

record publisher =
  endpoint :: string
  outbox :: "string list"
  pub_id :: int

text \<open>\<^verbatim>\<open>Server.pub_id_reset\<close> (lines 244-248).\<close>

definition pub_id_reset :: "publisher \<Rightarrow> publisher" where
  "pub_id_reset s = s\<lparr>pub_id := pub_id_min\<rparr>"

text \<open>\<^verbatim>\<open>Server.__init__\<close> (lines 210-221).\<close>

definition Server_init :: "int option \<Rightarrow> publisher" where
  "Server_init port =
     (let port = (case port of None \<Rightarrow> default_port | Some p \<Rightarrow> p);
          port = ''tcp://*:'' @ str_int port
      in pub_id_reset \<lparr> endpoint = port, outbox = [], pub_id = pub_id_min \<rparr>)"

text \<open>\<^verbatim>\<open>next(self.pub_id)\<close>: yields the current value and advances the iterator.\<close>

definition next_count :: "publisher \<Rightarrow> int \<times> publisher" where
  "next_count s = (pub_id s, s\<lparr>pub_id := pub_id s + 1\<rparr>)"

text \<open>\<^verbatim>\<open>Server.pub_id_next\<close> (lines 224-241).\<close>

definition pub_id_next :: "publisher \<Rightarrow> int \<times> publisher" where
  "pub_id_next s =
     (case next_count s of
        (pid, s) \<Rightarrow>
          if pid \<ge> pub_id_max
          then
            (let s = pub_id_reset s
             in if pid > pub_id_max
                then (pub_id_min, snd (next_count s))
                else (pid, s))
          else (pid, s))"

text \<open>\<^verbatim>\<open>self.socket.send(frame)\<close>.\<close>

definition send :: "string \<Rightarrow> publisher \<Rightarrow> publisher" where
  "send frame s = s\<lparr>outbox := outbox s @ [frame]\<rparr>"

text \<open>
  \<^verbatim>\<open>Server.publish\<close> (lines 251-276), with \<open>bulk\<close> either \<^verbatim>\<open>None\<close> or a byte sequence. The second
  component of the result is the caller's mapping after the call. \<^verbatim>\<open>topic + ' '\<close> raises
  \<^verbatim>\<open>TypeError\<close> for a name that is not a string.
\<close>

definition publish ::
  "codec \<Rightarrow> event \<Rightarrow> string option \<Rightarrow> publisher \<Rightarrow> (error + unit) \<times> event \<times> publisher" where
  "publish cd message bulk s =
     (case pub_id_next s of
        (pid, s) \<Rightarrow>
          (case map_of message ''name'' of
             None \<Rightarrow> (Inl KeyError, message, s)
           | Some topic \<Rightarrow>
               (let message = AList.update ''id'' (JInt pid) message;
                    message = (if bulk \<noteq> None
                               then AList.update ''bulk'' (JBool True) message
                               else message)
                in case topic of
                     JStr topic \<Rightarrow>
                       (let s = send (topic @ '' '' @ dumps cd message) s
                        in case bulk of
                             None \<Rightarrow> (Inr (), message, s)
                           | Some bulk \<Rightarrow>
                               (let prefix = topic @ '';bulk '' @ str_int pid @ '' '';
                                    bulk_payload = prefix @ bulk
                                in (Inr (), message, send bulk_payload s)))
                   | _ \<Rightarrow> (Inl TypeError, message, s))))"

subsection \<open>Notions the properties are stated with\<close>

text \<open>The references of a list whose referent still exists, and those that can be called.\<close>

definition live :: "store \<Rightarrow> ref list \<Rightarrow> ref list" where
  "live st references = filter (\<lambda>r. st r \<noteq> None) references"

definition callable :: "store \<Rightarrow> ref \<Rightarrow> bool" where
  "callable st r = (case st r of Some (Function f) \<Rightarrow> True | _ \<Rightarrow> False)"

text \<open>The list registered for a topic: empty when the mapping has no entry for it.\<close>

definition registered :: "client \<Rightarrow> string \<Rightarrow> ref list" where
  "registered c topic =
     (case map_of (callback_specific c) topic of None \<Rightarrow> [] | Some references \<Rightarrow> references)"

text \<open>The calls made, in order: which callback, with which payload.\<close>

fun invoked :: "action list \<Rightarrow> (ref \<times> payload) list" where
  "invoked [] = []"
| "invoked (Invoked r m # out) = (r, m) # invoked out"
| "invoked (Traceback r # out) = invoked out"

text \<open>The identifiers returned by \<open>n\<close> consecutive calls of \<open>pub_id_next\<close>.\<close>

fun pub_id_calls :: "nat \<Rightarrow> publisher \<Rightarrow> int list \<times> publisher" where
  "pub_id_calls 0 s = ([], s)"
| "pub_id_calls (Suc n) s =
     (case pub_id_next s of
        (pid, s) \<Rightarrow> (case pub_id_calls n s of (ids, s) \<Rightarrow> (pid # ids, s)))"

subsection \<open>Concrete inputs\<close>

text \<open>
  A codec for the examples: every mapping is written as \<^verbatim>\<open>{}\<close>, and only \<^verbatim>\<open>{}\<close> parses.
\<close>

definition example_codec :: codec where
  "example_codec =
     \<lparr> dumps = (\<lambda>m. ''{}''),
       loads = (\<lambda>s. if s = ''{}'' then Inr (JDict []) else Inl JSONDecodeError),
       decodable = (\<lambda>s. True) \<rparr>"

text \<open>
  Three referents: 10 always returns, 20 always raises, 30 always returns; everything else
  is gone.
\<close>

definition example_store :: store where
  "example_store =
     (\<lambda>r. if r = 10 then Some (Function (\<lambda>m. Returns))
          else if r = 20 then Some (Function (\<lambda>m. Raises))
          else if r = 30 then Some (Function (\<lambda>m. Returns))
          else None)"

definition example_client :: "ref list \<Rightarrow> (string \<times> ref list) list \<Rightarrow> client" where
  "example_client every specific =
     (Client_init None None)\<lparr>callback_all := every, callback_specific := specific\<rparr>"

definition example_server :: "int \<Rightarrow> publisher" where
  "example_server n = (Server_init None)\<lparr>pub_id := n\<rparr>"

section \<open>Properties\<close>

subsection \<open>The walk, the pruning and the dispatch in closed form\<close>

declare digits.simps [simp del]

lemma propagate_walk_eq:
  "propagate_walk st m rs dead out =
     (dead @ filter (\<lambda>r. st r = None) rs, out @ concat (map (\<lambda>r. invoke st r m) rs))"
  by (induction rs arbitrary: dead out) auto

text \<open>
  Removing, one by one, the occurrences collected from a list leaves the others in place;
  \<open>pre\<close> is the part of the list already passed.
\<close>

lemma propagate_remove_filter:
  "\<forall>x\<in>set pre. \<not> P x \<Longrightarrow>
   propagate_remove (filter P xs) (pre @ xs) = (Inr (), pre @ filter (\<lambda>x. \<not> P x) xs)"
proof (induction xs arbitrary: pre)
  case Nil
  then show ?case by simp
next
  case (Cons x xs)
  show ?case
  proof (cases "P x")
    case True
    with Cons.prems have "x \<notin> set pre" by auto
    then have "remove1 x (pre @ x # xs) = pre @ xs"
      by (simp add: remove1_append)
    with True Cons.IH [OF Cons.prems] show ?thesis by simp
  next
    case False
    with Cons.prems have "\<forall>y\<in>set (pre @ [x]). \<not> P y" by auto
    from Cons.IH [OF this] False show ?thesis by simp
  qed
qed

lemma propagate_remove_dead:
  "propagate_remove (filter (\<lambda>r. st r = None) rs) rs = (Inr (), live st rs)"
  using propagate_remove_filter [of "[]" "\<lambda>r. st r = None" rs] by (simp add: live_def)

lemma propagate_dispatch_eq:
  "propagate_dispatch st topic m c =
     (Inr (),
      c\<lparr>callback_all := live st (callback_all c),
        callback_specific :=
          (case map_of (callback_specific c) topic of
             None \<Rightarrow> callback_specific c
           | Some refs \<Rightarrow>
               if live st refs = [] then AList.delete topic (callback_specific c)
               else AList.update topic (live st refs) (callback_specific c))\<rparr>,
      concat (map (\<lambda>r. invoke st r m) (callback_all c @ registered c topic)))"
  by (cases "callback_specific c = []")
     (auto simp: propagate_dispatch_def propagate_walk_eq propagate_remove_dead registered_def
           Let_def split: option.splits)

lemma propagate_eq:
  assumes "propagate_decode cd message = Inr (topic, m)"
  shows "propagate cd st message c =
     (Inr (),
      c\<lparr>callback_all := live st (callback_all c),
        callback_specific :=
          (case map_of (callback_specific c) topic of
             None \<Rightarrow> callback_specific c
           | Some refs \<Rightarrow>
               if live st refs = [] then AList.delete topic (callback_specific c)
               else AList.update topic (live st refs) (callback_specific c))\<rparr>,
      concat (map (\<lambda>r. invoke st r m) (callback_all c @ registered c topic)))"
proof (cases "callback_all c = [] \<and> callback_specific c = []")
  case True
  then have "c\<lparr>callback_all := [], callback_specific := []\<rparr> = c"
    by (cases c) simp
  with True show ?thesis
    by (simp add: propagate_def live_def registered_def)
next
  case False
  then have "propagate cd st message c =
      (case propagate_decode cd message of
         Inl e \<Rightarrow> (Inl e, c, [])
       | Inr (topic, message) \<Rightarrow> propagate_dispatch st topic message c)"
    unfolding propagate_def by (rule if_not_P)
  then show ?thesis
    by (simp add: assms propagate_dispatch_eq)
qed


lemma invoked_append: "invoked (xs @ ys) = invoked xs @ invoked ys"
  by (induction xs rule: invoked.induct) auto

lemma invoked_invoke:
  "invoked (invoke st r m) = (if callable st r then [(r, m)] else [])"
  by (auto simp: invoke_def callable_def split: option.splits pyobj.splits outcome.splits)

lemma invoked_walk:
  "invoked (concat (map (\<lambda>r. invoke st r m) rs)) = map (\<lambda>r. (r, m)) (filter (callable st) rs)"
  by (induction rs) (auto simp: invoked_append invoked_invoke)

lemma invoked_propagate:
  assumes "propagate_decode cd message = Inr (topic, m)"
  shows "invoked (snd (snd (propagate cd st message c))) =
           map (\<lambda>r. (r, m)) (filter (callable st) (callback_all c @ registered c topic))"
  by (simp add: propagate_eq [OF assms] invoked_walk invoked_append)

lemma traceback_of_raise:
  assumes "r \<in> set rs" and "st r = Some (Function f)" and "f m = Raises"
  shows "Traceback r \<in> set (concat (map (\<lambda>r. invoke st r m) rs))"
  using assms by (auto simp: invoke_def intro!: bexI [of _ r])

subsection \<open>Splitting a frame\<close>









subsection \<open>The sequencer\<close>

lemma pub_id_next_in_range:
  assumes "pub_id s \<le> pub_id_max"
  shows "pub_id_next s =
           (pub_id s, s\<lparr>pub_id := (if pub_id s = pub_id_max then pub_id_min else pub_id s + 1)\<rparr>)"
  using assms by (auto simp: pub_id_next_def next_count_def pub_id_reset_def)

lemma Server_init_in_range: "pub_id (Server_init port) \<le> pub_id_max"
  by (simp add: Server_init_def pub_id_reset_def pub_id_min_def pub_id_max_def Let_def)

lemma pub_id_next_keeps_range:
  "pub_id s \<le> pub_id_max \<Longrightarrow> pub_id (snd (pub_id_next s)) \<le> pub_id_max"
  by (auto simp: pub_id_next_in_range pub_id_min_def pub_id_max_def)




lemma pub_id_calls_first:
  "pub_id s \<le> pub_id_max \<Longrightarrow> 0 < n \<Longrightarrow> fst (pub_id_calls n s) ! 0 = pub_id s"
  by (cases n) (auto simp: pub_id_next_in_range split: prod.splits)

lemma pub_id_calls_step:
  assumes "pub_id s \<le> pub_id_max" and "Suc i < n"
  shows "fst (pub_id_calls n s) ! i \<le> pub_id_max \<and>
         fst (pub_id_calls n s) ! Suc i =
           (if fst (pub_id_calls n s) ! i = pub_id_max then pub_id_min
            else fst (pub_id_calls n s) ! i + 1)"
  using assms
proof (induction n arbitrary: s i)
  case 0
  then show ?case by simp
next
  case (Suc n)
  let ?s1 = "snd (pub_id_next s)"
  have s1: "pub_id ?s1 \<le> pub_id_max"
    using Suc.prems(1) by (rule pub_id_next_keeps_range)
  have next_id:
    "pub_id ?s1 = (if pub_id s = pub_id_max then pub_id_min else pub_id s + 1)"
    using Suc.prems(1) by (simp add: pub_id_next_in_range)
  have unfold: "fst (pub_id_calls (Suc n) s) = pub_id s # fst (pub_id_calls n ?s1)"
    using Suc.prems(1) by (simp add: pub_id_next_in_range split: prod.splits)
  show ?case
  proof (cases i)
    case 0
    with Suc.prems(2) have "0 < n" by simp
    with s1 have "fst (pub_id_calls n ?s1) ! 0 = pub_id ?s1"
      by (rule pub_id_calls_first)
    with 0 Suc.prems(1) next_id show ?thesis
      unfolding unfold by simp
  next
    case (Suc j)
    with Suc.prems(2) have "Suc j < n" by simp
    from Suc.IH [OF s1 this] Suc show ?thesis
      unfolding unfold by simp
  qed
qed

subsection \<open>Publishing\<close>


lemma publish_message:
  assumes "map_of message ''name'' = Some topic"
  shows "fst (snd (publish cd message bulk s)) =
           (if bulk \<noteq> None
            then AList.update ''bulk'' (JBool True)
                   (AList.update ''id'' (JInt (fst (pub_id_next s))) message)
            else AList.update ''id'' (JInt (fst (pub_id_next s))) message)"
  using assms
  by (auto simp: publish_def Let_def case_prod_beta split: json.splits option.splits)


subsection \<open>The flag\<close>

lemma shutdown_subscribe: "shutdown (subscribe t c) = shutdown c"
  by (simp add: subscribe_def Let_def)

lemma shutdown_register: "register st cb topic c = Inr c' \<Longrightarrow> shutdown c' = shutdown c"
  by (auto simp: register_def shutdown_subscribe Let_def
           split: option.splits pyobj.splits)

lemma shutdown_propagate_dispatch:
  "shutdown (fst (snd (propagate_dispatch st topic m c))) = shutdown c"
  by (simp add: propagate_dispatch_eq)

lemma shutdown_propagate: "shutdown (fst (snd (propagate cd st message c))) = shutdown c"
  by (auto simp: propagate_def shutdown_propagate_dispatch split: sum.splits)

lemma shutdown_run: "shutdown (fst (snd (run cd st polls c))) = shutdown c"
proof (induction polls arbitrary: c)
  case Nil
  then show ?case by simp
next
  case (Cons poll polls)
  show ?case
  proof (cases poll)
    case None
    then show ?thesis using Cons.IH [of c] by simp
  next
    case (Some message)
    obtain res c1 out where p: "propagate cd st message c = (res, c1, out)"
      by (cases "propagate cd st message c") auto
    then have c1: "shutdown c1 = shutdown c"
      using shutdown_propagate [of cd st message c] by simp
    show ?thesis
    proof (cases res)
      case (Inl e)
      with Some p c1 show ?thesis by simp
    next
      case (Inr u)
      with Some p c1 Cons.IH [of c1] show ?thesis
        by (simp add: case_prod_beta)
    qed
  qed
qed

lemma run_not_Stopped: "shutdown c = False \<Longrightarrow> fst (run cd st polls c) \<noteq> Stopped"
proof (induction polls arbitrary: c)
  case Nil
  then show ?case by simp
next
  case (Cons poll polls)
  show ?case
  proof (cases poll)
    case None
    then show ?thesis using Cons by simp
  next
    case (Some message)
    obtain res c1 out where p: "propagate cd st message c = (res, c1, out)"
      by (cases "propagate cd st message c") auto
    then have c1: "shutdown c1 = False"
      using shutdown_propagate [of cd st message c] Cons.prems by simp
    show ?thesis
    proof (cases res)
      case (Inl e)
      with Some p Cons.prems show ?thesis by simp
    next
      case (Inr u)
      with Some p Cons.prems Cons.IH [OF c1] show ?thesis
        by (simp add: case_prod_beta)
    qed
  qed
qed

subsection \<open>Registration\<close>


lemma register_topic:
  assumes "callable st cb"
  shows "register st cb (Some t) c =
           Inr (c\<lparr>callback_specific :=
                    AList.update (strip t) (registered c (strip t) @ [cb]) (callback_specific c),
                  subscriptions := subscriptions c @ [strip t]\<rparr>)"
  using assms
  by (auto simp: register_def callable_def subscribe_def registered_def Let_def
           split: option.splits pyobj.splits)

section \<open>The claims\<close>

subsection \<open>C3: the publication sequencer\<close>

text \<open>
  Claim C3. On one \<^verbatim>\<open>Server\<close> take \<open>n\<close> consecutive calls of \<open>pub_id_next\<close> and any two
  neighbours among the identifiers returned. While the earlier one is below \<open>0xFFFFFFFF\<close> the
  later one is strictly greater (it is the successor); once the earlier one is \<open>0xFFFFFFFF\<close>
  the later one is the minimum \<open>0\<close>. So two neighbours are never equal. The counter of a
  \<^verbatim>\<open>Server\<close> is at most \<open>pub_id_max\<close>: it is so after the construction, and a call keeps it so
  (the last two conjuncts).
\<close>

theorem pub_id_next_increasing_until_wrap:
  assumes "pub_id s \<le> pub_id_max" and "Suc i < n"
  shows "(fst (pub_id_calls n s) ! i < pub_id_max \<longrightarrow>
            fst (pub_id_calls n s) ! i < fst (pub_id_calls n s) ! Suc i \<and>
            fst (pub_id_calls n s) ! Suc i = fst (pub_id_calls n s) ! i + 1) \<and>
         (fst (pub_id_calls n s) ! i = pub_id_max \<longrightarrow>
            fst (pub_id_calls n s) ! Suc i = pub_id_min) \<and>
         fst (pub_id_calls n s) ! i \<le> pub_id_max \<and>
         fst (pub_id_calls n s) ! Suc i \<noteq> fst (pub_id_calls n s) ! i \<and>
         pub_id (Server_init port) \<le> pub_id_max \<and>
         pub_id (snd (pub_id_next s)) \<le> pub_id_max"
  using pub_id_calls_step [OF assms] Server_init_in_range [of port]
    pub_id_next_keeps_range [OF assms(1)]
  by (auto simp: pub_id_min_def pub_id_max_def)

text \<open>The wrap itself: the counter stands at \<open>0xFFFFFFFF\<close>, and two calls return it and \<open>0\<close>.\<close>

theorem pub_id_next_increasing_until_wrap_witness:
  "pub_id (example_server 0xFFFFFFFF) \<le> pub_id_max \<and>
   fst (pub_id_calls (Suc (Suc 0)) (example_server 0xFFFFFFFF)) ! 0 = pub_id_max \<and>
   fst (pub_id_calls (Suc (Suc 0)) (example_server 0xFFFFFFFF)) ! Suc 0 = pub_id_min"
proof -
  have range: "pub_id (example_server 0xFFFFFFFF) \<le> pub_id_max"
    by (simp add: example_server_def pub_id_max_def)
  have "fst (pub_id_calls (Suc (Suc 0)) (example_server 0xFFFFFFFF)) ! 0 =
          pub_id (example_server 0xFFFFFFFF)"
    by (rule pub_id_calls_first [OF range]) simp
  then have first:
    "fst (pub_id_calls (Suc (Suc 0)) (example_server 0xFFFFFFFF)) ! 0 = pub_id_max"
    by (simp add: example_server_def pub_id_max_def)
  from pub_id_next_increasing_until_wrap [OF range, of 0 "Suc (Suc 0)"] first range
  show ?thesis by simp
qed

subsection \<open>C4: the two frames of a publication with a bulk payload\<close>



subsection \<open>C5: the stamps on the caller's mapping\<close>

text \<open>
  Claim C5. For an event that has a \<^verbatim>\<open>name\<close> field, the caller's mapping after \<open>publish\<close> is
  the one before with \<^verbatim>\<open>id\<close> assigned the publication id just obtained (an old \<^verbatim>\<open>id\<close> is
  overwritten) and, exactly when a bulk argument is given, \<^verbatim>\<open>bulk\<close> assigned \<^verbatim>\<open>True\<close>; without
  a bulk argument the \<^verbatim>\<open>bulk\<close> field is as before, and every other field is as before in both
  cases.
\<close>

theorem publish_stamps_id_and_bulk:
  assumes "map_of message ''name'' = Some topic"
  shows "fst (snd (publish cd message bulk s)) =
           (if bulk \<noteq> None
            then AList.update ''bulk'' (JBool True)
                   (AList.update ''id'' (JInt (fst (pub_id_next s))) message)
            else AList.update ''id'' (JInt (fst (pub_id_next s))) message) \<and>
         map_of (fst (snd (publish cd message bulk s))) ''id'' =
           Some (JInt (fst (pub_id_next s))) \<and>
         (bulk \<noteq> None \<longrightarrow>
            map_of (fst (snd (publish cd message bulk s))) ''bulk'' = Some (JBool True)) \<and>
         (bulk = None \<longrightarrow>
            map_of (fst (snd (publish cd message bulk s))) ''bulk'' = map_of message ''bulk'') \<and>
         (\<forall>k. k \<noteq> ''id'' \<and> k \<noteq> ''bulk'' \<longrightarrow>
            map_of (fst (snd (publish cd message bulk s))) k = map_of message k)"
  by (simp add: publish_message [OF assms] AList.update_conv')

theorem publish_stamps_id_and_bulk_witness:
  "map_of [(''name'', JStr ''tick''), (''id'', JInt 99), (''value'', JInt 1)] ''name'' =
     Some (JStr ''tick'') \<and>
   fst (snd (publish example_codec
     [(''name'', JStr ''tick''), (''id'', JInt 99), (''value'', JInt 1)] None
     (example_server 0))) =
     [(''name'', JStr ''tick''), (''id'', JInt 0), (''value'', JInt 1)]"
proof -
  have name:
    "map_of [(''name'', JStr ''tick''), (''id'', JInt 99), (''value'', JInt 1)] ''name'' =
       Some (JStr ''tick'')"
    by simp
  have zero: "fst (pub_id_next (example_server 0)) = 0"
    by (simp add: pub_id_next_in_range example_server_def pub_id_max_def)
  from publish_stamps_id_and_bulk [OF name, of example_codec None "example_server 0"] zero name
  show ?thesis by simp
qed

subsection \<open>C9: an event without a name\<close>



subsection \<open>C1: what the callbacks of a bulk frame receive\<close>




subsection \<open>C2: a frame that does not decode\<close>

text \<open>
  Claim C2 does not hold of the code. With callback 10 registered for all topics, the frame
  \<^verbatim>\<open>tick {bad\<close> makes \<^verbatim>\<open>Json.loads\<close> raise inside \<open>propagate\<close>; \<open>run\<close> has no handler, so the
  exception ends the loop, and the well-formed frame polled next is never dispatched. The same
  well-formed frame alone is dispatched.
\<close>

theorem decode_failure_ends_run:
  "run example_codec example_store [Some ''tick {bad'', Some ''tick {}'']
     (example_client [10] []) =
     (Crashed JSONDecodeError, example_client [10] [], []) \<and>
   run example_codec example_store [Some ''tick {}''] (example_client [10] []) =
     (Polling, example_client [10] [], [Invoked 10 (Parsed (JDict []))])"
proof -
  have bad: "propagate_decode example_codec ''tick {bad'' = Inl JSONDecodeError"
    by (simp add: propagate_decode_def split1_def isspace_def Let_def ends_bulk_def
          example_codec_def)
  have good: "propagate_decode example_codec ''tick {}'' = Inr (''tick'', Parsed (JDict []))"
    by (simp add: propagate_decode_def split1_def isspace_def Let_def ends_bulk_def
          example_codec_def)
  have first: "propagate example_codec example_store ''tick {bad'' (example_client [10] []) =
      (Inl JSONDecodeError, example_client [10] [], [])"
    by (simp add: propagate_def bad example_client_def)
  have second: "propagate example_codec example_store ''tick {}'' (example_client [10] []) =
      (Inr (), example_client [10] [], [Invoked 10 (Parsed (JDict []))])"
    by (simp add: propagate_eq [OF good] example_client_def live_def registered_def
          example_store_def invoke_def)
  have running: "shutdown (example_client [10] []) = False"
    by (simp add: example_client_def Client_init_def Let_def)
  from first second running show ?thesis
    by simp
qed

subsection \<open>C6: a registration whose callback is gone\<close>

text \<open>
  Claim C6. Let a frame on \<open>topic\<close> decode, and let \<open>r\<close>, registered for \<open>topic\<close>, be dead by
  then. The dispatch returns normally; \<open>r\<close> is called with no payload at all; afterwards the
  list registered for \<open>topic\<close> is the old one without its dead references, so \<open>r\<close> is not in it
  and it is shorter; and when no reference of the list is alive the mapping has no entry for
  \<open>topic\<close> any more. The list for all topics is pruned in the same way.
\<close>

theorem dead_reference_pruned:
  assumes "propagate_decode cd message = Inr (topic, m)"
      and "map_of (callback_specific c) topic = Some references"
      and "r \<in> set references"
      and "st r = None"
  shows "fst (propagate cd st message c) = Inr () \<and>
         (\<forall>p. (r, p) \<notin> set (invoked (snd (snd (propagate cd st message c))))) \<and>
         registered (fst (snd (propagate cd st message c))) topic = live st references \<and>
         r \<notin> set (registered (fst (snd (propagate cd st message c))) topic) \<and>
         length (registered (fst (snd (propagate cd st message c))) topic) < length references \<and>
         map_of (callback_specific (fst (snd (propagate cd st message c)))) topic =
           (if live st references = [] then None else Some (live st references)) \<and>
         callback_all (fst (snd (propagate cd st message c))) = live st (callback_all c)"
proof -
  have not_callable: "\<not> callable st r"
    using assms(4) by (simp add: callable_def)
  have shorter: "length (live st references) < length references"
    unfolding live_def using assms(3) by (rule length_filter_less) (simp add: assms(4))
  have gone: "r \<notin> set (live st references)"
    using assms(4) by (simp add: live_def)
  have entry: "map_of (callback_specific (fst (snd (propagate cd st message c)))) topic =
      (if live st references = [] then None else Some (live st references))"
    by (simp add: propagate_eq [OF assms(1)] assms(2) AList.delete_conv' AList.update_conv')
  then have reg: "registered (fst (snd (propagate cd st message c))) topic = live st references"
    by (simp add: registered_def)
  have calls: "(r, p) \<notin> set (invoked (snd (snd (propagate cd st message c))))" for p
    using not_callable by (auto simp: invoked_propagate [OF assms(1)])
  show ?thesis
    using shorter gone entry reg calls by (simp add: propagate_eq [OF assms(1)])
qed

text \<open>
  Callback 10 is alive and 40 is gone, both registered for \<^verbatim>\<open>tick\<close>: one registration is left.
\<close>

theorem dead_reference_pruned_witness:
  "propagate_decode example_codec ''tick {}'' = Inr (''tick'', Parsed (JDict [])) \<and>
   example_store 40 = None \<and>
   propagate example_codec example_store ''tick {}'' (example_client [] [(''tick'', [10, 40])]) =
     (Inr (), example_client [] [(''tick'', [10])],
      [Invoked 10 (Parsed (JDict [])), Traceback 40])"
proof -
  have good: "propagate_decode example_codec ''tick {}'' = Inr (''tick'', Parsed (JDict []))"
    by (simp add: propagate_decode_def split1_def isspace_def Let_def ends_bulk_def
          example_codec_def)
  have entry: "map_of (callback_specific (example_client [] [(''tick'', [10, 40])])) ''tick'' =
      Some [10, 40]"
    by (simp add: example_client_def)
  have member: "(40::nat) \<in> set [10, 40]"
    by simp
  have dead: "example_store 40 = None"
    by (simp add: example_store_def)
  have result:
    "propagate example_codec example_store ''tick {}'' (example_client [] [(''tick'', [10, 40])]) =
       (Inr (), example_client [] [(''tick'', [10])],
        [Invoked 10 (Parsed (JDict [])), Traceback 40])"
    by (simp add: propagate_eq [OF good] example_client_def live_def registered_def
          example_store_def invoke_def)
  from dead_reference_pruned [where st = example_store and r = 40, OF good entry member dead]
    good dead result
  show ?thesis by simp
qed

subsection \<open>C7: a callback that raises\<close>

text \<open>
  Claim C7. Let a frame decode, and let the callbacks registered for it, those for all topics
  followed by those for its topic, be \<open>before @ r0 # later\<close>, where \<open>r0\<close> raises on the payload.
  The dispatch still returns normally, the traceback of \<open>r0\<close> is printed, and every callable of
  \<open>later\<close> is called after \<open>r0\<close>, in order, with the payload.
\<close>

theorem raising_callback_contained:
  assumes "propagate_decode cd message = Inr (topic, m)"
      and "callback_all c @ registered c topic = before @ r0 # later"
      and "st r0 = Some (Function g)"
      and "g m = Raises"
      and "r \<in> set later"
      and "st r = Some (Function f)"
  shows "fst (propagate cd st message c) = Inr () \<and>
         Traceback r0 \<in> set (snd (snd (propagate cd st message c))) \<and>
         invoked (snd (snd (propagate cd st message c))) =
           map (\<lambda>r. (r, m)) (filter (callable st) before) @
           (r0, m) # map (\<lambda>r. (r, m)) (filter (callable st) later) \<and>
         (r, m) \<in> set (map (\<lambda>r. (r, m)) (filter (callable st) later))"
proof -
  have c0: "callable st r0"
    using assms(3) by (simp add: callable_def)
  have cr: "callable st r"
    using assms(6) by (simp add: callable_def)
  have "r0 \<in> set (callback_all c @ registered c topic)"
    unfolding assms(2) by simp
  then have tb: "Traceback r0 \<in>
      set (concat (map (\<lambda>r. invoke st r m) (callback_all c @ registered c topic)))"
    using assms(3,4) by (rule traceback_of_raise)
  have calls: "invoked (snd (snd (propagate cd st message c))) =
      map (\<lambda>r. (r, m)) (filter (callable st) (before @ r0 # later))"
    unfolding invoked_propagate [OF assms(1)] assms(2) ..
  show ?thesis
    using tb c0 cr assms(5) by (simp add: calls) (simp add: propagate_eq [OF assms(1)])
qed

text \<open>
  Callback 20, for all topics, raises; callback 30, for the topic \<^verbatim>\<open>tick\<close>, is called all the
  same.
\<close>

theorem raising_callback_contained_witness:
  "propagate_decode example_codec ''tick {}'' = Inr (''tick'', Parsed (JDict [])) \<and>
   propagate example_codec example_store ''tick {}'' (example_client [20] [(''tick'', [30])]) =
     (Inr (), example_client [20] [(''tick'', [30])],
      [Invoked 20 (Parsed (JDict [])), Traceback 20, Invoked 30 (Parsed (JDict []))])"
proof -
  have good: "propagate_decode example_codec ''tick {}'' = Inr (''tick'', Parsed (JDict []))"
    by (simp add: propagate_decode_def split1_def isspace_def Let_def ends_bulk_def
          example_codec_def)
  have lists: "callback_all (example_client [20] [(''tick'', [30])]) @
      registered (example_client [20] [(''tick'', [30])]) ''tick'' = [] @ 20 # [30]"
    by (simp add: example_client_def registered_def)
  have raiser: "example_store 20 = Some (Function (\<lambda>m. Raises))"
    by (simp add: example_store_def)
  have raises: "(\<lambda>m::payload. Raises) (Parsed (JDict [])) = Raises"
    by simp
  have member: "(30::nat) \<in> set [30]"
    by simp
  have other: "example_store 30 = Some (Function (\<lambda>m. Returns))"
    by (simp add: example_store_def)
  have result:
    "propagate example_codec example_store ''tick {}'' (example_client [20] [(''tick'', [30])]) =
       (Inr (), example_client [20] [(''tick'', [30])],
        [Invoked 20 (Parsed (JDict [])), Traceback 20, Invoked 30 (Parsed (JDict []))])"
    by (simp add: propagate_eq [OF good] example_client_def live_def registered_def
          example_store_def invoke_def)
  from raising_callback_contained
      [where st = example_store and ?r0.0 = 20 and g = "\<lambda>m. Raises" and r = 30
         and f = "\<lambda>m. Returns",
       OF good lists raiser raises member other]
    good result
  show ?thesis by simp
qed

subsection \<open>C8: the order of the calls\<close>



subsection \<open>C10: the shutdown flag\<close>

text \<open>
  Claim C10. A \<^verbatim>\<open>Client\<close> is constructed with \<open>shutdown = False\<close>, and \<open>subscribe\<close>, \<open>register\<close>,
  \<open>propagate\<close> and \<open>run\<close> leave the flag as they find it, whatever they return. So a loop started
  with the flag unset never ends as \<open>Stopped\<close>, however many polls it makes: it is still
  polling, or an exception has ended it.
\<close>

theorem shutdown_never_set:
  "shutdown (Client_init address port) = False \<and>
   shutdown (subscribe t c) = shutdown c \<and>
   (\<forall>c'. register st cb topic c = Inr c' \<longrightarrow> shutdown c' = shutdown c) \<and>
   shutdown (fst (snd (propagate cd st message c))) = shutdown c \<and>
   shutdown (fst (snd (run cd st polls c))) = shutdown c \<and>
   (shutdown c = False \<longrightarrow> fst (run cd st polls c) \<noteq> Stopped)"
  by (simp add: shutdown_subscribe shutdown_register shutdown_propagate shutdown_run
        run_not_Stopped Client_init_def Let_def)

theorem shutdown_never_set_witness:
  "shutdown (Client_init None None) = False \<and>
   register example_store 10 (Some ''tick'') (Client_init None None) =
     Inr ((Client_init None None)
            \<lparr>callback_specific := [(''tick'', [10])], subscriptions := [''tick'']\<rparr>) \<and>
   fst (run example_codec example_store [Some ''tick {}'', None, Some ''tick {bad'']
          (example_client [] [(''tick'', [10])])) \<noteq> Stopped"
proof -
  have reg: "register example_store 10 (Some ''tick'') (Client_init None None) =
      Inr ((Client_init None None)
             \<lparr>callback_specific := [(''tick'', [10])], subscriptions := [''tick'']\<rparr>)"
    by (simp add: register_topic callable_def example_store_def strip_def str_isspace_def
          isspace_def registered_def Client_init_def Let_def)
  have running: "shutdown (example_client [] [(''tick'', [10])]) = False"
    by (simp add: example_client_def Client_init_def Let_def)
  from shutdown_never_set [of None None _ "example_client [] [(''tick'', [10])]"
      example_store 10 "Some ''tick''" example_codec _
      "[Some ''tick {}'', None, Some ''tick {bad'']"] reg running
  show ?thesis by simp
qed

end
